theory Spec2Isabelle
  imports Main
begin

section \<open>JavaScript arithmetic used by the library\<close>

text \<open>
  The library computes with JavaScript numbers that hold integers. They are modelled as
  \<^typ>\<open>int\<close>; the one non-integer value that the code can produce, \<open>NaN\<close>, is
  modelled as \<open>None\<close> of \<^typ>\<open>int option\<close> at the places where it can arise
  (a read of \<open>daysInMonthArray\<close> outside its bounds, a getter of an invalid
  \<open>Date\<close>). Rounding of doubles beyond \<open>2^53\<close> is not part of the model.
\<close>

text \<open>\<open>a % b\<close>: the remainder takes the sign of the dividend.\<close>

definition js_rem :: "int \<Rightarrow> int \<Rightarrow> int" where
  "js_rem a b = sgn a * (\<bar>a\<bar> mod \<bar>b\<bar>)"

text \<open>\<open>x | 0\<close> on an integer-valued \<open>x\<close>: \<open>ToInt32\<close>, wrapping modulo \<open>2^32\<close>.\<close>

definition toInt32 :: "int \<Rightarrow> int" where
  "toInt32 n = (n + 2147483648) mod 4294967296 - 2147483648"

text \<open>\<open>a / b | 0\<close>: the quotient truncated toward zero, then \<open>ToInt32\<close>.\<close>

definition div_or0 :: "int \<Rightarrow> int \<Rightarrow> int" where
  "div_or0 a b = toInt32 (sgn a * sgn b * (\<bar>a\<bar> div \<bar>b\<bar>))"

text \<open>
  Modelled from the spec: \<open>modulo\<close> is imported from the package \<open>emnorst\<close>, which is
  not part of this repository; the spec describes it as the mathematical modulo, whose
  result is non-negative for a positive divisor. \<open>Math.floor(a / b)\<close> for a positive
  constant \<open>b\<close> is \<open>a div b\<close>.
\<close>

definition modulo :: "int \<Rightarrow> int \<Rightarrow> int" where
  "modulo a b = a mod b"

section \<open>Constants\<close>

abbreviation (input) daysInYear :: int where "daysInYear \<equiv> 365"
abbreviation (input) daysInWeek :: int where "daysInWeek \<equiv> 7"
abbreviation (input) monthsInYear :: int where "monthsInYear \<equiv> 12"
abbreviation (input) hoursInDay :: int where "hoursInDay \<equiv> 24"
abbreviation (input) minutesInHour :: int where "minutesInHour \<equiv> 60"
abbreviation (input) secondsInMinute :: int where "secondsInMinute \<equiv> 60"
abbreviation (input) millisInSecond :: int where "millisInSecond \<equiv> 1000"

text \<open>
  Modelled from the spec: \<open>interval.ts\<close> imports \<open>daysInYearWithoutLeapDay\<close> from
  \<open>datetime.ts\<close>, which does not export that name; the spec gives the factor as 365
  (the value of \<open>daysInYear\<close>).
\<close>

abbreviation (input) daysInYearWithoutLeapDay :: int where "daysInYearWithoutLeapDay \<equiv> 365"

section \<open>Data\<close>

record IDate =
  year :: int
  month :: int
  day :: int

record ITime =
  hour :: int
  minute :: int
  second :: int
  millisecond :: int

text \<open>\<open>IDateTime extends IDate, ITime\<close>; the class \<open>DateTime\<close> has the same seven fields.\<close>

record IDateTime = IDate +
  hour :: int
  minute :: int
  second :: int
  millisecond :: int

type_synonym DateTime = IDateTime

section \<open>Calendar math\<close>

definition isLeapYear :: "int \<Rightarrow> bool" where
  "isLeapYear y = (js_rem y 4 = 0 \<and> (js_rem y 100 \<noteq> 0 \<or> js_rem y 400 = 0))"

definition leapDays :: "int \<Rightarrow> int" where
  "leapDays y = div_or0 y 4 - div_or0 y 100 + div_or0 y 400"

definition daysInMonthArray :: "int list" where
  "daysInMonthArray = [31, 28, 31, 30, 31, 30, 31, 31, 30, 31, 30, 31]"

text \<open>
  \<open>daysInMonthArray[month - 1] + leapDay\<close>: a read outside the array gives
  \<open>undefined\<close>, and \<open>undefined + 0\<close> is \<open>NaN\<close>, here \<open>None\<close>.
\<close>

definition daysInMonth :: "int \<Rightarrow> int \<Rightarrow> int option" where
  "daysInMonth y m =
     (let leapDay = (if m = 2 \<and> isLeapYear y then 1 else 0)
      in if 1 \<le> m \<and> m \<le> 12 then Some (daysInMonthArray ! nat (m - 1) + leapDay)
         else None)"

definition yearday :: "'a IDate_scheme \<Rightarrow> int" where
  "yearday date =
     (let m = js_rem (month date + 9) 12 + 4;
          dayOfYearWithoutLeapDay = js_rem (div_or0 (306 * m) 10 - 64 + day date) daysInYear;
          leapDay = (if month date > 2 \<and> isLeapYear (year date) then 1 else 0)
      in dayOfYearWithoutLeapDay + leapDay)"

definition weekday :: "'a IDate_scheme \<Rightarrow> int" where
  "weekday date =
     (let dayFromUnixEpoc = year date + leapDays (year date - 1) + yearday date
      in js_rem dayFromUnixEpoc daysInWeek)"

text \<open>
  For comparison with \<open>yearday\<close>, in the spec's words (glossary, "Yearday"): the
  zero-based ordinal position of a date within its calendar year, counted month by month:
  the lengths of the months before it, plus the days before it in its own month.
\<close>

definition monthLength :: "int \<Rightarrow> int \<Rightarrow> int" where
  "monthLength y m = (case daysInMonth y m of Some n \<Rightarrow> n | None \<Rightarrow> 0)"

definition ordinalInYear :: "'a IDate_scheme \<Rightarrow> int" where
  "ordinalInYear date =
     sum_list (map (monthLength (year date)) [1 .. month date - 1]) + (day date - 1)"

section \<open>Field normalizer\<close>

definition normalizeTime :: "'a ITime_scheme \<Rightarrow> ITime" where
  "normalizeTime time =
     (let millisecond = ITime.millisecond time;
          second = ITime.second time + millisecond div millisInSecond;
          minute = ITime.minute time + second div secondsInMinute;
          hour = ITime.hour time + minute div minutesInHour
      in \<lparr>ITime.hour = hour,
          minute = modulo minute minutesInHour,
          second = modulo second secondsInMinute,
          millisecond = modulo millisecond millisInSecond\<rparr>)"

text \<open>
  The first loop of \<open>normalizeDate\<close>, on the variables \<open>(day, month, year)\<close>:
  \<open>while(day > daysInMonth(year, month))\<close>. A comparison with \<open>NaN\<close> is false and
  leaves the loop.
\<close>

function normalizeDate_loop1 :: "int \<Rightarrow> int \<Rightarrow> int \<Rightarrow> int \<times> int \<times> int" where
  "normalizeDate_loop1 d m y =
     (case daysInMonth y m of
        None \<Rightarrow> (d, m, y)
      | Some n \<Rightarrow>
          if d > n
          then (if m + 1 > monthsInYear then normalizeDate_loop1 (d - n) 1 (y + 1)
                else normalizeDate_loop1 (d - n) (m + 1) y)
          else (d, m, y))"
  by pat_completeness auto
termination
proof (relation "measure (\<lambda>(d, m, y). nat d)")
  have pos: "0 < n" if "daysInMonth y m = Some n" for y m n
  proof -
    from that have "1 \<le> m" "m \<le> 12" and "daysInMonthArray ! nat (m - 1) \<le> n"
      by (auto simp: daysInMonth_def Let_def split: if_splits)
    moreover from this have "m \<in> {1, 2, 3, 4, 5, 6, 7, 8, 9, 10, 11, 12}"
      by simp arith
    ultimately show ?thesis
      by (auto simp: daysInMonthArray_def)
  qed
  show "wf (measure (\<lambda>(d, m, y). nat d))" by simp
  show "((d - n, 1, y + 1), d, m, y) \<in> measure (\<lambda>(d, m, y). nat d)"
    if "daysInMonth y m = Some n" "n < d" for d m y n
    using that pos [of y m n] by simp
  show "((d - n, m + 1, y), d, m, y) \<in> measure (\<lambda>(d, m, y). nat d)"
    if "daysInMonth y m = Some n" "n < d" for d m y n
    using that pos [of y m n] by simp
qed

text \<open>
  The second loop, \<open>while(day <= 0)\<close>. \<open>day += daysInMonth(year, month)\<close> with a
  \<open>NaN\<close> operand makes \<open>day\<close> \<open>NaN\<close>, which leaves the loop; the result \<open>None\<close>
  stands for that outcome.
\<close>

function normalizeDate_loop2 :: "int \<Rightarrow> int \<Rightarrow> int \<Rightarrow> (int \<times> int \<times> int) option" where
  "normalizeDate_loop2 d m y =
     (if d \<le> 0
      then (let m' = (if m - 1 < 1 then monthsInYear else m - 1);
                y' = (if m - 1 < 1 then y - 1 else y)
            in case daysInMonth y' m' of
                 None \<Rightarrow> None
               | Some n \<Rightarrow> normalizeDate_loop2 (d + n) m' y')
      else Some (d, m, y))"
  by pat_completeness auto
termination
proof (relation "measure (\<lambda>(d, m, y). nat (1 - d))")
  have pos: "0 < n" if "daysInMonth y m = Some n" for y m n
  proof -
    from that have "1 \<le> m" "m \<le> 12" and "daysInMonthArray ! nat (m - 1) \<le> n"
      by (auto simp: daysInMonth_def Let_def split: if_splits)
    moreover from this have "m \<in> {1, 2, 3, 4, 5, 6, 7, 8, 9, 10, 11, 12}"
      by simp arith
    ultimately show ?thesis
      by (auto simp: daysInMonthArray_def)
  qed
  show "wf (measure (\<lambda>(d, m, y). nat (1 - d)))" by simp
  show "((d + n, m', y'), d, m, y) \<in> measure (\<lambda>(d, m, y). nat (1 - d))"
    if "d \<le> 0" "daysInMonth y' m' = Some n" for d m y m' y' n
    using that pos [of y' m' n] by simp
qed

text \<open>
  \<open>normalizeDate\<close>; \<open>modulo(date.month, monthsInYear) || monthsInYear\<close> replaces a
  zero remainder by 12. \<open>None\<close> stands for a result whose \<open>day\<close> is \<open>NaN\<close>.
\<close>

definition normalizeDate :: "'a IDate_scheme \<Rightarrow> IDate option" where
  "normalizeDate date =
     (let d = day date;
          m = (if modulo (month date) monthsInYear = 0 then monthsInYear
               else modulo (month date) monthsInYear);
          y = year date + (month date - 1) div monthsInYear
      in case normalizeDate_loop1 d m y of
           (d1, m1, y1) \<Rightarrow>
             (case normalizeDate_loop2 d1 m1 y1 of
                None \<Rightarrow> None
              | Some (d2, m2, y2) \<Rightarrow> Some \<lparr>year = y2, month = m2, day = d2\<rparr>))"

text \<open>An \<open>IDateTime\<close> passed where an \<open>ITime\<close> is expected (structural typing).\<close>

definition asITime :: "'a IDateTime_scheme \<Rightarrow> ITime" where
  "asITime dt = \<lparr>ITime.hour = IDateTime.hour dt, minute = IDateTime.minute dt,
                 second = IDateTime.second dt, millisecond = IDateTime.millisecond dt\<rparr>"

definition normalizeDateTime :: "IDateTime \<Rightarrow> DateTime option" where
  "normalizeDateTime dt =
     (let time = normalizeTime (asITime dt)
      in case normalizeDate \<lparr>year = year dt, month = month dt,
                              day = day dt + ITime.hour time div hoursInDay\<rparr> of
           None \<Rightarrow> None
         | Some date \<Rightarrow>
             Some \<lparr>year = year date, month = month date, day = day date,
                   hour = modulo (ITime.hour time) hoursInDay,
                   minute = ITime.minute time,
                   second = ITime.second time,
                   millisecond = ITime.millisecond time\<rparr>)"

section \<open>DateTime\<close>

text \<open>
  \<open>Partial<IDateTime>\<close> and \<open>Partial<IDuration>\<close> are objects with optional
  integer properties: maps from property names to values.
\<close>

type_synonym Partial = "string \<rightharpoonup> int"

text \<open>\<open>a ?? b\<close>\<close>

definition nullish :: "int option \<Rightarrow> int \<Rightarrow> int" where
  "nullish a b = (case a of None \<Rightarrow> b | Some v \<Rightarrow> v)"

text \<open>
  \<open>Date\<close> is the ECMAScript built-in, not code of this repository. It is modelled by
  what its UTC getters return: \<open>NaN\<close> from each getter of an invalid date (such as
  \<open>new Date("x")\<close> or \<open>new Date(NaN)\<close>), integers otherwise. \<open>DateTime.from\<close> turns a
  string or number source into a \<open>Date\<close> with the built-in constructor first; the model
  starts from that \<open>Date\<close>. The branch that throws \<open>TypeError\<close> is taken by no source
  of the declared type.
\<close>

record DateGetters =
  getUTCFullYear :: int
  getUTCMonth :: int
  getUTCDate :: int
  getUTCHours :: int
  getUTCMinutes :: int
  getUTCSeconds :: int
  getUTCMilliseconds :: int

datatype Date = InvalidDate | ValidDate DateGetters

text \<open>
  \<open>DateTime.from\<close>. The result \<open>None\<close> stands for the object built from an invalid
  date, whose seven fields are all \<open>NaN\<close>.
\<close>

definition DateTime_from :: "Date \<Rightarrow> DateTime option" where
  "DateTime_from source =
     (case source of
        InvalidDate \<Rightarrow> None
      | ValidDate g \<Rightarrow>
          Some \<lparr>year = getUTCFullYear g, month = getUTCMonth g + 1, day = getUTCDate g,
                hour = getUTCHours g, minute = getUTCMinutes g, second = getUTCSeconds g,
                millisecond = getUTCMilliseconds g\<rparr>)"

text \<open>The ranges that ECMAScript gives for the UTC getters of a valid date.\<close>

definition ecmaRanges :: "DateGetters \<Rightarrow> bool" where
  "ecmaRanges g =
     (0 \<le> getUTCMonth g \<and> getUTCMonth g \<le> 11 \<and>
      (case daysInMonth (getUTCFullYear g) (getUTCMonth g + 1) of
         None \<Rightarrow> False
       | Some n \<Rightarrow> 1 \<le> getUTCDate g \<and> getUTCDate g \<le> n) \<and>
      0 \<le> getUTCHours g \<and> getUTCHours g \<le> 23 \<and>
      0 \<le> getUTCMinutes g \<and> getUTCMinutes g \<le> 59 \<and>
      0 \<le> getUTCSeconds g \<and> getUTCSeconds g \<le> 59 \<and>
      0 \<le> getUTCMilliseconds g \<and> getUTCMilliseconds g \<le> 999)"

text \<open>
  The exceptions of the library: the failed \<open>assert.unreachable\<close> of \<open>Interval.to\<close>, and
  a \<open>TypeError\<close> with its message.
\<close>

datatype error = Unreachable | TypeError string

text \<open>
  Modelled from the spec: \<open>interval.ts\<close> passes a \<open>DateTimeLike\<close> to \<open>DateTime.from\<close>;
  \<open>datetime.ts\<close> does not declare that type. The spec (section 6) lists the sources: epoch
  milliseconds, a string, or a prior value of the same canonical type; \<open>from\<close> also takes
  a \<open>Date\<close>. A number or string becomes a \<open>Date\<close> in the first branch of \<open>from\<close>,
  so it is the \<open>DateSource\<close> of that \<open>Date\<close>.
\<close>

datatype DateTimeLike = DateSource Date | DateTimeSource DateTime

text \<open>
  \<open>DateTime.from\<close> with all its branches: a source that is no string, number or \<open>Date\<close>
  (a \<open>DateTime\<close>) reaches \<open>throw new TypeError("unknown source type.")\<close>.
\<close>

definition DateTime_from_like :: "DateTimeLike \<Rightarrow> error + DateTime option" where
  "DateTime_from_like source =
     (case source of
        DateSource date \<Rightarrow> Inr (DateTime_from date)
      | DateTimeSource dt \<Rightarrow> Inl (TypeError ''unknown source type.''))"

definition DateTime_with :: "DateTime \<Rightarrow> Partial \<Rightarrow> DateTime option" where
  "DateTime_with this dt =
     normalizeDateTime
       \<lparr>year = nullish (dt ''year'') (year this),
        month = nullish (dt ''month'') (month this),
        day = nullish (dt ''day'') (day this),
        hour = nullish (dt ''hour'') (hour this),
        minute = nullish (dt ''minute'') (minute this),
        second = nullish (dt ''second'') (second this),
        millisecond = nullish (dt ''millisecond'') (millisecond this)\<rparr>"

definition DateTime_plus :: "DateTime \<Rightarrow> Partial \<Rightarrow> DateTime option" where
  "DateTime_plus this dur =
     normalizeDateTime
       \<lparr>year = year this + nullish (dur ''years'') 0,
        month = month this + nullish (dur ''months'') 0,
        day = day this + nullish (dur ''days'') 0,
        hour = hour this + nullish (dur ''hours'') 0,
        minute = minute this + nullish (dur ''minutes'') 0,
        second = second this + nullish (dur ''seconds'') 0,
        millisecond = millisecond this + nullish (dur ''milliseconds'') 0\<rparr>"

text \<open>The unit keys accepted by \<open>startOf\<close> and \<open>endOf\<close>, and their property names.\<close>

datatype UnitKey = Year | Month | Day | Hour | Minute | Second | Week

fun keyName :: "UnitKey \<Rightarrow> string" where
  "keyName Year = ''year''"
| "keyName Month = ''month''"
| "keyName Day = ''day''"
| "keyName Hour = ''hour''"
| "keyName Minute = ''minute''"
| "keyName Second = ''second''"
| "keyName Week = ''week''"

text \<open>
  \<open>startOf\<close>: the labelled block assigns the finer fields in turn and is left at the
  key; a key of \<open>Year\<close> falls through to the end of the block.
\<close>

definition DateTime_startOf :: "DateTime \<Rightarrow> UnitKey \<Rightarrow> DateTime option" where
  "DateTime_startOf this key0 =
     (let dt0 = [''millisecond'' \<mapsto> 0];
          dt1 = (if key0 = Week then dt0(''day'' \<mapsto> day this - weekday this) else dt0);
          key = (if key0 = Week then Day else key0);
          dt =
            (if key = Second then dt1
             else let dt2 = dt1(''second'' \<mapsto> 0) in
               if key = Minute then dt2
               else let dt3 = dt2(''minute'' \<mapsto> 0) in
                 if key = Hour then dt3
                 else let dt4 = dt3(''hour'' \<mapsto> 0) in
                   if key = Day then dt4
                   else let dt5 = dt4(''day'' \<mapsto> 1) in
                     if key = Month then dt5
                     else dt5(''month'' \<mapsto> 1))
      in DateTime_with this dt)"

definition DateTime_endOf :: "DateTime \<Rightarrow> UnitKey \<Rightarrow> DateTime option" where
  "DateTime_endOf this key =
     (case DateTime_startOf this key of
        None \<Rightarrow> None
      | Some start \<Rightarrow>
          if key = Week
          then DateTime_plus start [''days'' \<mapsto> 7, ''milliseconds'' \<mapsto> - 1]
          else DateTime_plus start [keyName key @ ''s'' \<mapsto> 1, ''milliseconds'' \<mapsto> - 1])"

text \<open>The canonical ranges of the seven fields.\<close>

definition canonicalDate :: "'a IDate_scheme \<Rightarrow> bool" where
  "canonicalDate d =
     (1 \<le> month d \<and> month d \<le> 12 \<and>
      (case daysInMonth (year d) (month d) of
         None \<Rightarrow> False
       | Some n \<Rightarrow> 1 \<le> day d \<and> day d \<le> n))"

definition canonical :: "DateTime \<Rightarrow> bool" where
  "canonical d =
     (canonicalDate d \<and>
      0 \<le> hour d \<and> hour d \<le> 23 \<and>
      0 \<le> minute d \<and> minute d \<le> 59 \<and>
      0 \<le> second d \<and> second d \<le> 59 \<and>
      0 \<le> millisecond d \<and> millisecond d \<le> 999)"

text \<open>
  The DateTimes that the public API can produce from valid dates: \<open>from\<close> on a valid
  \<open>Date\<close>, then \<open>with\<close>, \<open>plus\<close>, \<open>startOf\<close> and \<open>endOf\<close> with integer arguments.
\<close>

inductive reachable :: "DateTime \<Rightarrow> bool" where
  r_from: "ecmaRanges g \<Longrightarrow> DateTime_from (ValidDate g) = Some d \<Longrightarrow> reachable d"
| r_with: "reachable d \<Longrightarrow> DateTime_with d dt = Some d' \<Longrightarrow> reachable d'"
| r_plus: "reachable d \<Longrightarrow> DateTime_plus d dur = Some d' \<Longrightarrow> reachable d'"
| r_startOf: "reachable d \<Longrightarrow> DateTime_startOf d key = Some d' \<Longrightarrow> reachable d'"
| r_endOf: "reachable d \<Longrightarrow> DateTime_endOf d key = Some d' \<Longrightarrow> reachable d'"

section \<open>Interval\<close>

text \<open>
  The closure \<open>daysInCurrentMonth\<close> of the constructor, reading the variable \<open>months\<close>;
  \<open>(m % monthsInYear) || monthsInYear\<close> replaces a zero remainder (also \<open>-0\<close>) by 12.
\<close>

definition daysInCurrentMonth :: "DateTime \<Rightarrow> int \<Rightarrow> int option" where
  "daysInCurrentMonth start months =
     (let m = month start + months
      in daysInMonth (year start + m div monthsInYear)
           (if js_rem m monthsInYear = 0 then monthsInYear else js_rem m monthsInYear))"

text \<open>\<open>while(days > daysInCurrentMonth())\<close>, on the variables \<open>(days, months)\<close>.\<close>

function Interval_loop1 :: "DateTime \<Rightarrow> int \<Rightarrow> int \<Rightarrow> int \<times> int" where
  "Interval_loop1 start days months =
     (case daysInCurrentMonth start months of
        None \<Rightarrow> (days, months)
      | Some n \<Rightarrow>
          if days > n then Interval_loop1 start (days - n) (months + 1)
          else (days, months))"
  by pat_completeness auto
termination
proof (relation "measure (\<lambda>(start, days, months). nat days)")
  show "wf (measure (\<lambda>(start :: DateTime, days, months :: int). nat days))" by simp
  show "((start, days - n, months + 1), start, days, months)
         \<in> measure (\<lambda>(start, days, months). nat days)"
    if "daysInCurrentMonth start months = Some n" "n < days" for start days months n
  proof -
    from that(1) obtain y m where ym: "daysInMonth y m = Some n"
      by (auto simp: daysInCurrentMonth_def Let_def)
    then have "1 \<le> m" "m \<le> 12" and "daysInMonthArray ! nat (m - 1) \<le> n"
      by (auto simp: daysInMonth_def Let_def split: if_splits)
    moreover from this have "m \<in> {1, 2, 3, 4, 5, 6, 7, 8, 9, 10, 11, 12}"
      by simp arith
    ultimately have "0 < n"
      by (auto simp: daysInMonthArray_def)
    with that(2) show ?thesis by simp
  qed
qed

text \<open>
  \<open>while(days < 0)\<close>: \<open>months--\<close>, then \<open>days += daysInCurrentMonth()\<close>; a \<open>NaN\<close>
  operand makes \<open>days\<close> \<open>NaN\<close> and leaves the loop.
\<close>

function Interval_loop2 :: "DateTime \<Rightarrow> int \<Rightarrow> int \<Rightarrow> int option \<times> int" where
  "Interval_loop2 start days months =
     (if days < 0
      then (case daysInCurrentMonth start (months - 1) of
              None \<Rightarrow> (None, months - 1)
            | Some n \<Rightarrow> Interval_loop2 start (days + n) (months - 1))
      else (Some days, months))"
  by pat_completeness auto
termination
proof (relation "measure (\<lambda>(start, days, months). nat (- days))")
  show "wf (measure (\<lambda>(start :: DateTime, days, months :: int). nat (- days)))" by simp
  show "((start, days + n, months - 1), start, days, months)
         \<in> measure (\<lambda>(start, days, months). nat (- days))"
    if "days < 0" "daysInCurrentMonth start (months - 1) = Some n" for start days months n
  proof -
    from that(2) obtain y m where ym: "daysInMonth y m = Some n"
      by (auto simp: daysInCurrentMonth_def Let_def)
    then have "1 \<le> m" "m \<le> 12" and "daysInMonthArray ! nat (m - 1) \<le> n"
      by (auto simp: daysInMonth_def Let_def split: if_splits)
    moreover from this have "m \<in> {1, 2, 3, 4, 5, 6, 7, 8, 9, 10, 11, 12}"
      by simp arith
    ultimately have "0 < n"
      by (auto simp: daysInMonthArray_def)
    with that(1) show ?thesis by simp
  qed
qed

text \<open>
  The constructor up to the end of its second loop: the values of \<open>days\<close> and \<open>months\<close>
  (the adjusted total month count) there.
\<close>

definition Interval_adjust :: "DateTime \<Rightarrow> DateTime \<Rightarrow> int option \<times> int" where
  "Interval_adjust start end =
     (let time = normalizeTime
                   \<lparr>ITime.hour = hour end - hour start,
                    minute = minute end - minute start,
                    second = second end - second start,
                    millisecond = millisecond end - millisecond start\<rparr>;
          days = day end - day start + ITime.hour time div hoursInDay;
          months = (year end - year start) * monthsInYear + month end - month start
      in case Interval_loop1 start days months of
           (days1, months1) \<Rightarrow> Interval_loop2 start days1 months1)"

text \<open>
  The seven duration fields are computed by the constructor. \<open>days\<close> can be \<open>NaN\<close>
  (\<open>None\<close>): \<open>daysInCurrentMonth\<close> reads \<open>daysInMonthArray\<close> at a negative index when
  \<open>start.month + months\<close> is negative and not a multiple of 12.
\<close>

record Interval =
  start :: DateTime
  end' :: DateTime
  years :: int
  months :: int
  days :: "int option"
  hours :: int
  minutes :: int
  seconds :: int
  milliseconds :: int

text \<open>The constructor \<open>new Interval(start, end)\<close>.\<close>

definition new_Interval :: "DateTime \<Rightarrow> DateTime \<Rightarrow> Interval" where
  "new_Interval startdt enddt =
     (let time = normalizeTime
                   \<lparr>ITime.hour = hour enddt - hour startdt,
                    minute = minute enddt - minute startdt,
                    second = second enddt - second startdt,
                    millisecond = millisecond enddt - millisecond startdt\<rparr>
      in case Interval_adjust startdt enddt of
           (daysA, monthsA) \<Rightarrow>
             \<lparr>start = startdt, end' = enddt,
              years = monthsA div monthsInYear,
              months = js_rem monthsA monthsInYear,
              days = daysA,
              hours = modulo (ITime.hour time) hoursInDay,
              minutes = ITime.minute time,
              seconds = ITime.second time,
              milliseconds = ITime.millisecond time\<rparr>)"

text \<open>
  \<open>Interval.before\<close>: \<open>const enddt = DateTime.from(end)\<close>, then \<open>enddt.minus(dur)\<close>.
  The class \<open>DateTime\<close> declares no \<open>minus\<close>, so the property is \<open>undefined\<close> on every
  \<open>DateTime\<close>, with integer fields or \<open>NaN\<close> fields, and the call throws a \<open>TypeError\<close>
  before the constructor is reached.
\<close>

definition Interval_before :: "DateTimeLike \<Rightarrow> Partial \<Rightarrow> error + Interval option" where
  "Interval_before anchor dur =
     (case DateTime_from_like anchor of
        Inl e \<Rightarrow> Inl e
      | Inr enddt \<Rightarrow> Inl (TypeError ''enddt.minus is not a function''))"

text \<open>
  \<open>Interval.after\<close>: \<open>const startdt = DateTime.from(start)\<close>, then
  \<open>new Interval(startdt, startdt.plus(dur))\<close>. The result \<open>Inr None\<close> stands for the
  interval built on an invalid date, whose endpoints have \<open>NaN\<close> fields.
\<close>

definition Interval_after :: "DateTimeLike \<Rightarrow> Partial \<Rightarrow> error + Interval option" where
  "Interval_after anchor dur =
     (case DateTime_from_like anchor of
        Inl e \<Rightarrow> Inl e
      | Inr None \<Rightarrow> Inr None
      | Inr (Some startdt) \<Rightarrow>
          (case DateTime_plus startdt dur of
             None \<Rightarrow> Inr None
           | Some enddt \<Rightarrow> Inr (Some (new_Interval startdt enddt))))"

text \<open>\<open>Interval.to\<close>; \<open>assert.unreachable\<close> throws for any other key.\<close>

definition Interval_to :: "Interval \<Rightarrow> string \<Rightarrow> error + int" where
  "Interval_to this key =
     (if key = ''years'' then Inr (years this)
      else if key = ''months'' then Inr (years this * monthsInYear + months this)
      else
        let d = (year (end' this) - year (start this)) * daysInYearWithoutLeapDay
                + leapDays (year (end' this)) - leapDays (year (start this))
                + yearday (end' this) - yearday (start this)
        in if key = ''days'' then Inr d
        else let h = d * hoursInDay + hours this
        in if key = ''hours'' then Inr h
        else let mi = h * minutesInHour + minutes this
        in if key = ''minutes'' then Inr mi
        else let s = mi * secondsInMinute + seconds this
        in if key = ''seconds'' then Inr s
        else if key = ''milliseconds'' then Inr (s * millisInSecond + milliseconds this)
        else Inl Unreachable)"

text \<open>
  \<open>a <= b\<close> on two \<open>DateTime\<close> objects. The class declares no \<open>valueOf\<close>, \<open>toString\<close>
  or \<open>Symbol.toPrimitive\<close>, so \<open>ToPrimitive\<close> falls through \<open>Object.prototype.valueOf\<close>
  (which returns the object) to \<open>Object.prototype.toString\<close>; the two operands are
  then compared as strings, by code units, and \<open>a <= b\<close> is the negation of \<open>b < a\<close>.
\<close>

definition DateTime_toPrimitive :: "DateTime \<Rightarrow> string" where
  "DateTime_toPrimitive dt = ''[object Object]''"

fun string_less :: "string \<Rightarrow> string \<Rightarrow> bool" where
  "string_less [] [] = False"
| "string_less [] (y # ys) = True"
| "string_less (x # xs) [] = False"
| "string_less (x # xs) (y # ys) =
     (if (of_char x :: nat) < of_char y then True
      else if (of_char y :: nat) < of_char x then False
      else string_less xs ys)"

definition DateTime_le :: "DateTime \<Rightarrow> DateTime \<Rightarrow> bool" where
  "DateTime_le a b = (\<not> string_less (DateTime_toPrimitive b) (DateTime_toPrimitive a))"

definition Interval_contains :: "Interval \<Rightarrow> DateTime \<Rightarrow> bool" where
  "Interval_contains this dt = (DateTime_le (start this) dt \<and> DateTime_le dt (end' this))"

definition Interval_overlaps :: "Interval \<Rightarrow> Interval \<Rightarrow> bool" where
  "Interval_overlaps this i =
     (DateTime_le (start this) (end' i) \<and> DateTime_le (start i) (end' this))"

text \<open>
  For comparison with \<open>DateTime_le\<close>, in the spec's words (section 3): the total
  lexicographic order over (year, month, day, hour, minute, second, millisecond).
\<close>

fun lex_le :: "int list \<Rightarrow> int list \<Rightarrow> bool" where
  "lex_le [] ys = True"
| "lex_le (x # xs) [] = False"
| "lex_le (x # xs) (y # ys) = (x < y \<or> (x = y \<and> lex_le xs ys))"

definition fieldList :: "DateTime \<Rightarrow> int list" where
  "fieldList d = [year d, month d, day d, hour d, minute d, second d, millisecond d]"

definition spec_le :: "DateTime \<Rightarrow> DateTime \<Rightarrow> bool" where
  "spec_le a b = lex_le (fieldList a) (fieldList b)"

text \<open>
  For comparison with \<open>to("days")\<close>, in the spec's words (section 8, "a brute-force day
  counter"): the number of single-day steps from one calendar date to a later one, with
  a bound on the steps.
\<close>

definition nextDay :: "IDate \<Rightarrow> IDate" where
  "nextDay d =
     (if day d < monthLength (year d) (month d) then d\<lparr>day := day d + 1\<rparr>
      else if month d < 12 then d\<lparr>month := month d + 1, day := 1\<rparr>
      else \<lparr>year = year d + 1, month = 1, day = 1\<rparr>)"

fun countDays :: "nat \<Rightarrow> IDate \<Rightarrow> IDate \<Rightarrow> int option" where
  "countDays 0 a b = (if a = b then Some 0 else None)"
| "countDays (Suc fuel) a b =
     (if a = b then Some 0
      else case countDays fuel (nextDay a) b of None \<Rightarrow> None | Some k \<Rightarrow> Some (k + 1))"

text \<open>
  For comparison with \<open>leapDays\<close> and \<open>weekday\<close>, in the spec's words (section 4.1):
  \<open>leapDays\<close> with floor division, and \<open>weekday\<close> as the same sum
  \<open>year + leapDays(year-1) + yearday(date)\<close> reduced with the non-negative modulo.
\<close>

definition leapDays_floor :: "int \<Rightarrow> int" where
  "leapDays_floor y = y div 4 - y div 100 + y div 400"

definition weekday_modulo :: "'a IDate_scheme \<Rightarrow> int" where
  "weekday_modulo date = (year date + leapDays (year date - 1) + yearday date) mod 7"

text \<open>A result with a \<open>NaN\<close> field is in no range.\<close>

definition canonicalResult :: "DateTime option \<Rightarrow> bool" where
  "canonicalResult r = (case r of None \<Rightarrow> False | Some d \<Rightarrow> canonical d)"

section \<open>Arithmetic lemmas\<close>

lemma js_rem_small: "0 \<le> a \<Longrightarrow> a < b \<Longrightarrow> js_rem a b = a"
  by (cases "a = 0") (simp_all add: js_rem_def)

lemma js_rem_wrap: "b \<le> a \<Longrightarrow> a < 2 * b \<Longrightarrow> 0 < b \<Longrightarrow> js_rem a b = a - b"
proof -
  assume h: "b \<le> a" "a < 2 * b" "0 < b"
  have "(a - b) mod b = a - b" using h by (intro mod_pos_pos_trivial) linarith+
  then have "a mod b = a - b" by (simp only: minus_mod_self2)
  then show ?thesis using h by (simp add: js_rem_def)
qed

lemma js_rem_nonneg: "0 \<le> a \<Longrightarrow> js_rem a b = a mod \<bar>b\<bar>"
  by (cases "a = 0") (simp_all add: js_rem_def)

lemma leapDays_nonneg:
  assumes "0 \<le> y" "y < 8589934592"
  shows "leapDays y = leapDays_floor y"
proof -
  have "toInt32 (y div 4) = y div 4" using assms unfolding toInt32_def by auto
  moreover have "toInt32 (y div 100) = y div 100" using assms unfolding toInt32_def by auto
  moreover have "toInt32 (y div 400) = y div 400" using assms unfolding toInt32_def by auto
  ultimately show ?thesis using assms
    by (cases "y = 0") (simp_all add: leapDays_def leapDays_floor_def div_or0_def)
qed

section \<open>Calendar math: leapDays, weekday, yearday\<close>

text \<open>
  C5. For every integer year, including every negative year, \<open>leapDays(year)\<close> equals
  \<open>floor(year/4) - floor(year/100) + floor(year/400)\<close>. The code truncates toward zero
  (\<open>| 0\<close>): at year \<open>-1\<close> it returns 0 where the floor formula gives \<open>-1\<close>, so that
  \<open>leapDays(0) - leapDays(-1)\<close> is 0 although year 0 is a leap year for \<open>isLeapYear\<close>
  and \<open>daysInMonth\<close> (its February has 29 days). The two formulas agree on years from 0
  up to the 32-bit wrap of \<open>| 0\<close> (lemma \<open>leapDays_nonneg\<close>).
\<close>

theorem leapDays_truncates_negative_year:
  "leapDays (- 1) = 0 \<and> leapDays_floor (- 1) = - 1 \<and>
   leapDays 0 - leapDays (- 1) = 0 \<and> daysInMonth 0 2 = Some 29"
  by (simp add: leapDays_def leapDays_floor_def div_or0_def toInt32_def daysInMonth_def
      daysInMonthArray_def isLeapYear_def js_rem_def)

lemma yearday_nonneg:
  assumes "canonicalDate d"
  shows "0 \<le> yearday d"
proof -
  from assms obtain n where r: "1 \<le> month d" "month d \<le> 12" and n: "1 \<le> day d"
    by (auto simp: canonicalDate_def split: option.splits)
  from r have "month d \<in> {1, 2, 3, 4, 5, 6, 7, 8, 9, 10, 11, 12}" by simp arith
  then have "0 \<le> div_or0 (306 * (js_rem (month d + 9) 12 + 4)) 10 - 64 + day d"
    using n by (auto simp: js_rem_def div_or0_def toInt32_def)
  then have "0 \<le> js_rem (div_or0 (306 * (js_rem (month d + 9) 12 + 4)) 10 - 64 + day d) 365"
    by (simp add: js_rem_nonneg)
  then show ?thesis by (simp add: yearday_def Let_def)
qed

text \<open>From year 1 on, \<open>weekday\<close> is the non-negative modulo and lies in \<open>0..6\<close>.\<close>

lemma weekday_positive_year:
  assumes "canonicalDate d" "1 \<le> year d" "year d \<le> 8589934592"
  shows "weekday d = weekday_modulo d" "0 \<le> weekday d" "weekday d \<le> 6"
proof -
  have l: "leapDays (year d - 1) = leapDays_floor (year d - 1)"
    using assms(2,3) by (intro leapDays_nonneg) simp_all
  have "0 \<le> leapDays_floor (year d - 1)"
  proof -
    have "(year d - 1) div 100 \<le> (year d - 1) div 4" using assms(2)
      by (intro zdiv_mono2) simp_all
    moreover have "0 \<le> (year d - 1) div 400" using assms(2) by simp
    ultimately show ?thesis by (simp add: leapDays_floor_def)
  qed
  with yearday_nonneg [OF assms(1)] assms(2) l
  have nn: "0 \<le> year d + leapDays (year d - 1) + yearday d" by simp
  show e: "weekday d = weekday_modulo d"
    using nn by (simp add: weekday_def weekday_modulo_def Let_def js_rem_nonneg)
  show "0 \<le> weekday d" "weekday d \<le> 6"
    unfolding e weekday_modulo_def by (simp_all add: zle_diff1_eq [symmetric] del: zle_diff1_eq)
qed

text \<open>
  C6. For every date with canonical month and day, including negative years,
  \<open>weekday(date)\<close> is \<open>(year + leapDays(year-1) + yearday(date))\<close> reduced with the
  non-negative modulo, in \<open>0..6\<close>, and \<open>weekday\<close> of 1970-01-01 is 4. The code reduces
  with \<open>%\<close>: for \<open>-0001-01-01\<close> the sum is \<open>-1\<close> and the code returns \<open>-1\<close>, where
  the non-negative modulo gives 6. The value at 1970-01-01 is 4 as claimed, and from
  year 1 on the code and the claim agree (lemma \<open>weekday_positive_year\<close>).
\<close>

theorem weekday_negative_year:
  "weekday \<lparr>year = - 1, month = 1, day = 1\<rparr> = - 1 \<and>
   weekday_modulo \<lparr>year = - 1, month = 1, day = 1\<rparr> = 6 \<and>
   weekday \<lparr>year = 1970, month = 1, day = 1\<rparr> = 4"
  by (simp add: weekday_def weekday_modulo_def leapDays_def div_or0_def
      toInt32_def yearday_def js_rem_def isLeapYear_def)

lemma monthLength_simps:
  "monthLength y 1 = 31" "monthLength y 2 = (if isLeapYear y then 29 else 28)"
  "monthLength y 3 = 31" "monthLength y 4 = 30" "monthLength y 5 = 31" "monthLength y 6 = 30"
  "monthLength y 7 = 31" "monthLength y 8 = 31" "monthLength y 9 = 30" "monthLength y 10 = 31"
  "monthLength y 11 = 30" "monthLength y 12 = 31"
  by (simp_all add: monthLength_def daysInMonth_def daysInMonthArray_def)

lemma months_before:
  "map f [1 .. (0::int)] = []"
  "[1 .. (1::int)] = [1]" "[1 .. (2::int)] = [1,2]" "[1 .. (3::int)] = [1,2,3]"
  "[1 .. (4::int)] = [1,2,3,4]" "[1 .. (5::int)] = [1,2,3,4,5]" "[1 .. (6::int)] = [1,2,3,4,5,6]"
  "[1 .. (7::int)] = [1,2,3,4,5,6,7]" "[1 .. (8::int)] = [1,2,3,4,5,6,7,8]"
  "[1 .. (9::int)] = [1,2,3,4,5,6,7,8,9]" "[1 .. (10::int)] = [1,2,3,4,5,6,7,8,9,10]"
  "[1 .. (11::int)] = [1,2,3,4,5,6,7,8,9,10,11]"
  by (simp_all add: upto.simps)

text \<open>Month by month: the Fairfield formula against the count of the preceding days.\<close>

lemma yearday_at:
  assumes "1 \<le> day d" "day d \<le> 31"
  shows "month d = 1 \<Longrightarrow> yearday d = ordinalInYear d"
    and "month d = 2 \<Longrightarrow> yearday d = ordinalInYear d"
    and "month d = 3 \<Longrightarrow> yearday d = ordinalInYear d"
    and "month d = 4 \<Longrightarrow> yearday d = ordinalInYear d"
    and "month d = 5 \<Longrightarrow> yearday d = ordinalInYear d"
    and "month d = 6 \<Longrightarrow> yearday d = ordinalInYear d"
    and "month d = 7 \<Longrightarrow> yearday d = ordinalInYear d"
    and "month d = 8 \<Longrightarrow> yearday d = ordinalInYear d"
    and "month d = 9 \<Longrightarrow> yearday d = ordinalInYear d"
    and "month d = 10 \<Longrightarrow> yearday d = ordinalInYear d"
    and "month d = 11 \<Longrightarrow> yearday d = ordinalInYear d"
    and "month d = 12 \<Longrightarrow> yearday d = ordinalInYear d"
  using assms
  by (simp_all add: yearday_def ordinalInYear_def div_or0_def toInt32_def monthLength_simps
      months_before js_rem_small js_rem_wrap)

lemma daysInMonth_SomeD:
  assumes "daysInMonth y m = Some n"
  shows "1 \<le> m" "m \<le> 12" "28 \<le> n" "n \<le> 31"
proof -
  from assms show r: "1 \<le> m" "m \<le> 12"
    by (auto simp: daysInMonth_def Let_def split: if_splits)
  then have "m \<in> {1, 2, 3, 4, 5, 6, 7, 8, 9, 10, 11, 12}" by simp arith
  with assms show "28 \<le> n" "n \<le> 31"
    by (auto simp: daysInMonth_def daysInMonthArray_def Let_def split: if_splits)
qed

lemma daysInMonth_defined:
  "1 \<le> m \<Longrightarrow> m \<le> 12 \<Longrightarrow> \<exists>n. daysInMonth y m = Some n"
  by (simp add: daysInMonth_def Let_def)

text \<open>
  C7. For every canonical date (month in \<open>[1,12]\<close>, day in \<open>[1, daysInMonth(year, month)]\<close>),
  \<open>yearday(date)\<close> is the 0-based ordinal position of the date within its calendar year;
  in particular it is 0 for 2024-01-01, 365 for 2024-12-31 and 364 for 2023-12-31.
\<close>

theorem yearday_is_ordinal:
  "(canonicalDate d \<longrightarrow> yearday d = ordinalInYear d) \<and>
   yearday \<lparr>year = 2024, month = 1, day = 1\<rparr> = 0 \<and>
   yearday \<lparr>year = 2024, month = 12, day = 31\<rparr> = 365 \<and>
   yearday \<lparr>year = 2023, month = 12, day = 31\<rparr> = 364"
proof -
  have "yearday d = ordinalInYear d" if c: "canonicalDate d"
  proof -
    from c obtain n where r: "1 \<le> month d" "month d \<le> 12"
      and n: "daysInMonth (year d) (month d) = Some n" "1 \<le> day d" "day d \<le> n"
      by (auto simp: canonicalDate_def split: option.splits)
    from daysInMonth_SomeD(4) [OF n(1)] n(3) have d31: "day d \<le> 31" by simp
    from r have "month d \<in> {1, 2, 3, 4, 5, 6, 7, 8, 9, 10, 11, 12}" by simp arith
    then show ?thesis using yearday_at [OF n(2) d31] by blast
  qed
  moreover have "yearday \<lparr>year = 2024, month = 1, day = 1\<rparr> = 0"
    "yearday \<lparr>year = 2024, month = 12, day = 31\<rparr> = 365"
    "yearday \<lparr>year = 2023, month = 12, day = 31\<rparr> = 364"
    by (simp_all add: yearday_def div_or0_def toInt32_def js_rem_def isLeapYear_def)
  ultimately show ?thesis by blast
qed

theorem yearday_is_ordinal_witness:
  "canonicalDate \<lparr>year = 2024, month = 3, day = 1\<rparr> \<and>
   yearday \<lparr>year = 2024, month = 3, day = 1\<rparr> = 60 \<and>
   ordinalInYear \<lparr>year = 2024, month = 3, day = 1\<rparr> = 60"
proof -
  have c: "canonicalDate \<lparr>year = 2024, month = 3, day = 1\<rparr>"
    by (simp add: canonicalDate_def daysInMonth_def daysInMonthArray_def)
  have o: "ordinalInYear \<lparr>year = 2024, month = 3, day = 1\<rparr> = 60"
    by (simp add: ordinalInYear_def monthLength_simps months_before isLeapYear_def js_rem_def)
  from yearday_is_ordinal [of "\<lparr>year = 2024, month = 3, day = 1\<rparr>"] c o
  show ?thesis by simp
qed

section \<open>Field normalizer\<close>

lemma loop1_spec:
  "1 \<le> m \<Longrightarrow> m \<le> 12 \<Longrightarrow> normalizeDate_loop1 d m y = (d', m', y') \<Longrightarrow>
   1 \<le> m' \<and> m' \<le> 12 \<and> (\<exists>n. daysInMonth y' m' = Some n \<and> d' \<le> n)"
proof (induction d m y rule: normalizeDate_loop1.induct)
  case (1 d m y)
  from daysInMonth_defined [OF "1.prems"(1,2)] obtain n where n: "daysInMonth y m = Some n"
    by blast
  show ?case
  proof (cases "d > n")
    case False
    with n "1.prems" show ?thesis by simp
  next
    case True
    show ?thesis
    proof (cases "m + 1 > 12")
      case True
      with \<open>d > n\<close> n "1.prems"(3) have "normalizeDate_loop1 (d - n) 1 (y + 1) = (d', m', y')"
        by simp
      with "1.IH"(1) [OF n \<open>d > n\<close> True] show ?thesis by simp
    next
      case False
      with \<open>d > n\<close> n "1.prems"(3) have "normalizeDate_loop1 (d - n) (m + 1) y = (d', m', y')"
        by simp
      with "1.IH"(2) [OF n \<open>d > n\<close> False] False "1.prems"(1) show ?thesis by simp
    qed
  qed
qed

lemma loop2_spec:
  "1 \<le> m \<Longrightarrow> m \<le> 12 \<Longrightarrow> daysInMonth y m = Some n \<Longrightarrow> d \<le> n \<Longrightarrow>
   \<exists>d' m' y' n'. normalizeDate_loop2 d m y = Some (d', m', y') \<and> 1 \<le> m' \<and> m' \<le> 12 \<and>
      daysInMonth y' m' = Some n' \<and> 1 \<le> d' \<and> d' \<le> n'"
proof (induction d m y arbitrary: n rule: normalizeDate_loop2.induct)
  case (1 d m y)
  show ?case
  proof (cases "d \<le> 0")
    case False
    with "1.prems" show ?thesis by simp
  next
    case True
    define m1 where "m1 = (if m - 1 < 1 then 12 else m - 1)"
    define y1 where "y1 = (if m - 1 < 1 then y - 1 else y)"
    have r: "1 \<le> m1" "m1 \<le> 12" using "1.prems"(1,2) by (auto simp: m1_def)
    from daysInMonth_defined [OF r] obtain k where k: "daysInMonth y1 m1 = Some k" by blast
    have step: "normalizeDate_loop2 d m y = normalizeDate_loop2 (d + k) m1 y1"
      using True k by (subst normalizeDate_loop2.simps) (simp add: m1_def y1_def Let_def)
    have "d + k \<le> k" using True by simp
    from "1.IH" [OF True m1_def y1_def k r k this] step show ?thesis by simp
  qed
qed

lemma month_wrap:
  "1 \<le> (if modulo m 12 = 0 then 12 else modulo m 12)"
  "(if modulo m 12 = 0 then 12 else modulo m 12) \<le> 12"
proof -
  have "0 \<le> m mod 12" "m mod 12 < 12" by simp_all
  then show "1 \<le> (if modulo m 12 = 0 then 12 else modulo m 12)"
    "(if modulo m 12 = 0 then 12 else modulo m 12) \<le> 12"
    by (auto simp: modulo_def)
qed

text \<open>\<open>normalizeDate\<close> returns on every input, with a canonical date.\<close>

lemma normalizeDate_canonical: "\<exists>r. normalizeDate x = Some r \<and> canonicalDate r"
proof -
  define m0 where "m0 = (if modulo (month x) 12 = 0 then 12 else modulo (month x) 12)"
  define y0 where "y0 = year x + (month x - 1) div 12"
  have r0: "1 \<le> m0" "m0 \<le> 12" unfolding m0_def by (rule month_wrap)+
  obtain d1 m1 y1 where l1: "normalizeDate_loop1 (day x) m0 y0 = (d1, m1, y1)"
    by (cases "normalizeDate_loop1 (day x) m0 y0") auto
  from loop1_spec [OF r0 l1] obtain n1 where
    r1: "1 \<le> m1" "m1 \<le> 12" and n1: "daysInMonth y1 m1 = Some n1" "d1 \<le> n1" by blast
  from loop2_spec [OF r1 n1] obtain d2 m2 y2 n2 where
    l2: "normalizeDate_loop2 d1 m1 y1 = Some (d2, m2, y2)" and
    r2: "1 \<le> m2" "m2 \<le> 12" "daysInMonth y2 m2 = Some n2" "1 \<le> d2" "d2 \<le> n2" by blast
  have "normalizeDate x = Some \<lparr>year = y2, month = m2, day = d2\<rparr>"
    using l1 l2 by (simp add: normalizeDate_def Let_def m0_def y0_def)
  moreover have "canonicalDate \<lparr>year = y2, month = m2, day = d2\<rparr>"
    using r2 by (simp add: canonicalDate_def)
  ultimately show ?thesis by blast
qed

text \<open>On a canonical date neither loop runs and the month and year are kept.\<close>

lemma normalizeDate_fixed:
  assumes "canonicalDate x"
  shows "normalizeDate x = Some \<lparr>year = year x, month = month x, day = day x\<rparr>"
proof -
  from assms obtain n where r: "1 \<le> month x" "month x \<le> 12"
    and n: "daysInMonth (year x) (month x) = Some n" "1 \<le> day x" "day x \<le> n"
    by (auto simp: canonicalDate_def split: option.splits)
  have m: "(if modulo (month x) 12 = 0 then 12 else modulo (month x) 12) = month x"
  proof (cases "month x = 12")
    case True
    then show ?thesis by (simp add: modulo_def)
  next
    case False
    with r have "month x mod 12 = month x" by simp
    with r show ?thesis by (simp add: modulo_def)
  qed
  have y: "(month x - 1) div 12 = 0" using r by simp
  have l1: "normalizeDate_loop1 (day x) (month x) (year x) = (day x, month x, year x)"
    using n by simp
  have l2: "normalizeDate_loop2 (day x) (month x) (year x) = Some (day x, month x, year x)"
    using n by simp
  show ?thesis
    unfolding normalizeDate_def Let_def m y using l1 l2 by simp
qed

text \<open>
  C8. For every integer-valued date tuple \<open>x\<close>, \<open>normalizeDate(normalizeDate(x)) =
  normalizeDate(x)\<close>, and the output of \<open>normalizeDate\<close> satisfies \<open>1 \<le> month \<le> 12\<close>
  and \<open>1 \<le> day \<le> daysInMonth(year, month)\<close>. Both loops terminate on every input, and
  no \<open>NaN\<close> arises: \<open>normalizeDate x\<close> is \<open>Some r\<close>.
\<close>

theorem normalizeDate_idempotent_canonical:
  "\<exists>r. normalizeDate x = Some r \<and> normalizeDate r = Some r \<and>
       1 \<le> month r \<and> month r \<le> 12 \<and>
       (\<exists>n. daysInMonth (year r) (month r) = Some n \<and> 1 \<le> day r \<and> day r \<le> n)"
proof -
  from normalizeDate_canonical [of x] obtain r where
    r: "normalizeDate x = Some r" "canonicalDate r" by blast
  from normalizeDate_fixed [OF r(2)] have "normalizeDate r = Some r" by simp
  moreover from r(2) have "1 \<le> month r \<and> month r \<le> 12 \<and>
       (\<exists>n. daysInMonth (year r) (month r) = Some n \<and> 1 \<le> day r \<and> day r \<le> n)"
    by (auto simp: canonicalDate_def split: option.splits)
  ultimately show ?thesis using r(1) by blast
qed

theorem normalizeDate_idempotent_canonical_witness:
  "normalizeDate \<lparr>year = 2023, month = 14, day = 0\<rparr> = Some \<lparr>year = 2024, month = 1, day = 31\<rparr> \<and>
   normalizeDate \<lparr>year = 2024, month = 1, day = 31\<rparr> = Some \<lparr>year = 2024, month = 1, day = 31\<rparr>"
proof -
  have e: "normalizeDate \<lparr>year = 2023, month = 14, day = 0\<rparr>
      = Some \<lparr>year = 2024, month = 1, day = 31\<rparr>"
    by (simp add: normalizeDate_def modulo_def daysInMonth_def daysInMonthArray_def
        isLeapYear_def js_rem_def Let_def)
  from normalizeDate_idempotent_canonical [of "\<lparr>year = 2023, month = 14, day = 0\<rparr>"] e
  show ?thesis by auto
qed

section \<open>DateTime\<close>

lemma normalizeTime_ranges:
  "0 \<le> ITime.minute (normalizeTime t)" "ITime.minute (normalizeTime t) \<le> 59"
  "0 \<le> ITime.second (normalizeTime t)" "ITime.second (normalizeTime t) \<le> 59"
  "0 \<le> ITime.millisecond (normalizeTime t)" "ITime.millisecond (normalizeTime t) \<le> 999"
  by (simp_all add: normalizeTime_def Let_def modulo_def zle_diff1_eq [symmetric] del: zle_diff1_eq)

lemma normalizeTime_fixed:
  assumes "0 \<le> ITime.minute t" "ITime.minute t \<le> 59" "0 \<le> ITime.second t" "ITime.second t \<le> 59"
    "0 \<le> ITime.millisecond t" "ITime.millisecond t \<le> 999"
  shows "normalizeTime t = \<lparr>ITime.hour = ITime.hour t, minute = ITime.minute t,
     second = ITime.second t, millisecond = ITime.millisecond t\<rparr>"
  using assms by (simp add: normalizeTime_def Let_def modulo_def)

text \<open>\<open>normalizeDateTime\<close> returns on every input, with canonical fields.\<close>

lemma normalizeDateTime_canonical: "\<exists>r. normalizeDateTime dt = Some r \<and> canonical r"
proof -
  define time where "time = normalizeTime (asITime dt)"
  define x where "x = \<lparr>year = year dt, month = month dt, day = day dt + ITime.hour time div 24\<rparr>"
  from normalizeDate_canonical [of x] obtain date where
    date: "normalizeDate x = Some date" "canonicalDate date" by blast
  define r where "r = \<lparr>year = year date, month = month date, day = day date,
                   hour = modulo (ITime.hour time) 24,
                   minute = ITime.minute time,
                   second = ITime.second time,
                   millisecond = ITime.millisecond time\<rparr>"
  have "normalizeDateTime dt = Some r"
    using date(1)
    by (simp add: normalizeDateTime_def Let_def time_def [symmetric] x_def [symmetric] r_def)
  moreover have "canonicalDate r"
    using date(2) by (auto simp: canonicalDate_def r_def split: option.splits)
  moreover have "0 \<le> hour r" "hour r \<le> 23"
    by (simp_all add: r_def modulo_def zle_diff1_eq [symmetric] del: zle_diff1_eq)
  moreover have "0 \<le> minute r" "minute r \<le> 59" "0 \<le> second r" "second r \<le> 59"
    "0 \<le> millisecond r" "millisecond r \<le> 999"
    using normalizeTime_ranges [of "asITime dt"] by (simp_all add: r_def time_def)
  ultimately show ?thesis unfolding canonical_def by blast
qed

lemma IDateTime_eta:
  "\<lparr>year = year d, month = month d, day = day d, hour = hour d, minute = minute d,
    second = second d, millisecond = millisecond d\<rparr> = (d :: IDateTime)"
  by (cases d) simp

lemma normalizeDateTime_fixed:
  assumes "canonical d"
  shows "normalizeDateTime d = Some d"
proof -
  from assms have c: "canonicalDate d" and h: "0 \<le> hour d" "hour d \<le> 23"
    and t: "0 \<le> minute d" "minute d \<le> 59" "0 \<le> second d" "second d \<le> 59"
    "0 \<le> millisecond d" "millisecond d \<le> 999"
    by (simp_all add: canonical_def)
  have time: "normalizeTime (asITime d) = asITime d"
    using t by (simp add: normalizeTime_fixed asITime_def)
  have h0: "hour d div 24 = 0" "modulo (hour d) 24 = hour d" using h by (simp_all add: modulo_def)
  have "canonicalDate \<lparr>year = year d, month = month d, day = day d\<rparr>"
    using c by (auto simp: canonicalDate_def split: option.splits)
  from normalizeDate_fixed [OF this]
  have date: "normalizeDate \<lparr>year = year d, month = month d, day = day d\<rparr>
     = Some \<lparr>year = year d, month = month d, day = day d\<rparr>" by simp
  show ?thesis
    unfolding normalizeDateTime_def Let_def time
    using date h0 by (simp add: asITime_def IDateTime_eta)
qed

lemma with_canonical: "\<exists>r. DateTime_with d dt = Some r \<and> canonical r"
  unfolding DateTime_with_def by (rule normalizeDateTime_canonical)

lemma plus_canonical: "\<exists>r. DateTime_plus d dur = Some r \<and> canonical r"
  unfolding DateTime_plus_def by (rule normalizeDateTime_canonical)

lemma startOf_canonical: "\<exists>r. DateTime_startOf d key = Some r \<and> canonical r"
  unfolding DateTime_startOf_def Let_def by (rule with_canonical)

lemma endOf_canonical: "\<exists>r. DateTime_endOf d key = Some r \<and> canonical r"
proof -
  from startOf_canonical [of d key] obtain s where s: "DateTime_startOf d key = Some s" by blast
  show ?thesis
    unfolding DateTime_endOf_def s using plus_canonical [of s] by (simp split: if_splits)
qed

lemma from_canonical:
  assumes "ecmaRanges g" "DateTime_from (ValidDate g) = Some d"
  shows "canonical d"
  using assms
  by (auto simp: ecmaRanges_def DateTime_from_def canonical_def canonicalDate_def
      split: option.splits)

text \<open>
  C2, as stated: every DateTime reachable through the public API, \<open>from\<close> on a number,
  string or Date source included, has all seven fields in their canonical ranges. It fails
  for a source whose \<open>Date\<close> is invalid (\<open>DateTime.from("x")\<close>, \<open>DateTime.from(NaN)\<close>,
  \<open>DateTime.from(1e20)\<close>): \<open>from\<close> does not check the date, and every field of the
  result is \<open>NaN\<close>.
\<close>

theorem from_invalid_date_not_canonical:
  "\<not> canonicalResult (DateTime_from InvalidDate)"
  by (simp add: canonicalResult_def DateTime_from_def)

text \<open>
  C2, amended: every DateTime reachable through the public API from sources whose
  \<open>Date\<close> is valid (\<open>from\<close> on such a source, then \<open>with\<close>, \<open>plus\<close>, \<open>startOf\<close>,
  \<open>endOf\<close> with any integer arguments) has month in \<open>[1,12]\<close>, day in
  \<open>[1, daysInMonth(year, month)]\<close>, hour in \<open>[0,23]\<close>, minute and second in \<open>[0,59]\<close>
  and millisecond in \<open>[0,999]\<close>; and each of the four operations returns such a DateTime
  on it, for every argument.
\<close>

theorem reachable_canonical:
  assumes "reachable d"
  shows "canonical d \<and>
    (\<exists>r. DateTime_with d dt = Some r \<and> reachable r \<and> canonical r) \<and>
    (\<exists>r. DateTime_plus d dur = Some r \<and> reachable r \<and> canonical r) \<and>
    (\<exists>r. DateTime_startOf d key = Some r \<and> reachable r \<and> canonical r) \<and>
    (\<exists>r. DateTime_endOf d key = Some r \<and> reachable r \<and> canonical r)"
proof -
  have "canonical d" using assms
  proof (induction rule: reachable.induct)
    case (r_from g d)
    then show ?case by (rule from_canonical)
  next
    case (r_with d dt d')
    with with_canonical [of d dt] show ?case by auto
  next
    case (r_plus d dur d')
    with plus_canonical [of d dur] show ?case by auto
  next
    case (r_startOf d key d')
    with startOf_canonical [of d key] show ?case by auto
  next
    case (r_endOf d key d')
    with endOf_canonical [of d key] show ?case by auto
  qed
  moreover have "\<exists>r. DateTime_with d dt = Some r \<and> reachable r \<and> canonical r"
    using with_canonical [of d dt] r_with [OF assms] by blast
  moreover have "\<exists>r. DateTime_plus d dur = Some r \<and> reachable r \<and> canonical r"
    using plus_canonical [of d dur] r_plus [OF assms] by blast
  moreover have "\<exists>r. DateTime_startOf d key = Some r \<and> reachable r \<and> canonical r"
    using startOf_canonical [of d key] r_startOf [OF assms] by blast
  moreover have "\<exists>r. DateTime_endOf d key = Some r \<and> reachable r \<and> canonical r"
    using endOf_canonical [of d key] r_endOf [OF assms] by blast
  ultimately show ?thesis by blast
qed

theorem reachable_canonical_witness:
  "reachable \<lparr>year = 1970, month = 1, day = 1, hour = 0, minute = 0, second = 0,
               millisecond = 0\<rparr> \<and>
   canonical \<lparr>year = 1970, month = 1, day = 1, hour = 0, minute = 0, second = 0,
               millisecond = 0\<rparr> \<and>
   DateTime_plus \<lparr>year = 1970, month = 1, day = 1, hour = 0, minute = 0, second = 0,
               millisecond = 0\<rparr> [''months'' \<mapsto> 13, ''milliseconds'' \<mapsto> - 1]
     = Some \<lparr>year = 1971, month = 1, day = 31, hour = 23, minute = 59, second = 59,
               millisecond = 999\<rparr>"
proof -
  have g: "ecmaRanges \<lparr>getUTCFullYear = 1970, getUTCMonth = 0, getUTCDate = 1,
      getUTCHours = 0, getUTCMinutes = 0, getUTCSeconds = 0, getUTCMilliseconds = 0\<rparr>"
    by (simp add: ecmaRanges_def daysInMonth_def daysInMonthArray_def)
  have f: "DateTime_from (ValidDate \<lparr>getUTCFullYear = 1970, getUTCMonth = 0, getUTCDate = 1,
      getUTCHours = 0, getUTCMinutes = 0, getUTCSeconds = 0, getUTCMilliseconds = 0\<rparr>)
    = Some \<lparr>year = 1970, month = 1, day = 1, hour = 0, minute = 0, second = 0,
             millisecond = 0\<rparr>"
    by (simp add: DateTime_from_def)
  have r: "reachable \<lparr>year = 1970, month = 1, day = 1, hour = 0, minute = 0, second = 0,
      millisecond = 0\<rparr>"
    by (rule r_from [OF g f])
  have p: "DateTime_plus \<lparr>year = 1970, month = 1, day = 1, hour = 0, minute = 0, second = 0,
               millisecond = 0\<rparr> [''months'' \<mapsto> 13, ''milliseconds'' \<mapsto> - 1]
     = Some \<lparr>year = 1971, month = 1, day = 31, hour = 23, minute = 59, second = 59,
               millisecond = 999\<rparr>"
    by (simp add: DateTime_plus_def nullish_def normalizeDateTime_def normalizeTime_def
        asITime_def normalizeDate_def modulo_def daysInMonth_def daysInMonthArray_def
        isLeapYear_def js_rem_def Let_def)
  from reachable_canonical [OF r] r p show ?thesis by simp
qed

text \<open>
  C10. For every canonical DateTime \<open>d\<close>, \<open>d.with({})\<close> returns a DateTime whose seven
  fields are equal to \<open>d\<close>'s, and so does \<open>with\<close> on fields replaced by their current
  values: \<open>normalizeDateTime\<close> is the identity on canonical field tuples.
\<close>

theorem with_identity:
  assumes "canonical d"
    and "dt ''year'' \<in> {None, Some (year d)}"
    and "dt ''month'' \<in> {None, Some (month d)}"
    and "dt ''day'' \<in> {None, Some (day d)}"
    and "dt ''hour'' \<in> {None, Some (hour d)}"
    and "dt ''minute'' \<in> {None, Some (minute d)}"
    and "dt ''second'' \<in> {None, Some (second d)}"
    and "dt ''millisecond'' \<in> {None, Some (millisecond d)}"
  shows "DateTime_with d dt = Some d \<and> DateTime_with d Map.empty = Some d \<and>
         normalizeDateTime d = Some d"
proof -
  have n: "nullish a b = b" if "a \<in> {None, Some b}" for a b
    using that by (auto simp: nullish_def)
  have "DateTime_with d dt = normalizeDateTime d"
    unfolding DateTime_with_def using assms(2-8) by (simp add: n IDateTime_eta)
  moreover have "DateTime_with d Map.empty = normalizeDateTime d"
    unfolding DateTime_with_def by (simp add: nullish_def IDateTime_eta)
  ultimately show ?thesis using normalizeDateTime_fixed [OF assms(1)] by simp
qed

theorem with_identity_witness:
  "canonical \<lparr>year = 2024, month = 2, day = 29, hour = 23, minute = 59, second = 59,
              millisecond = 999\<rparr> \<and>
   DateTime_with \<lparr>year = 2024, month = 2, day = 29, hour = 23, minute = 59, second = 59,
              millisecond = 999\<rparr> [''day'' \<mapsto> 29]
     = Some \<lparr>year = 2024, month = 2, day = 29, hour = 23, minute = 59, second = 59,
              millisecond = 999\<rparr> \<and>
   DateTime_with \<lparr>year = 2024, month = 2, day = 29, hour = 23, minute = 59, second = 59,
              millisecond = 999\<rparr> Map.empty
     = Some \<lparr>year = 2024, month = 2, day = 29, hour = 23, minute = 59, second = 59,
              millisecond = 999\<rparr>"
proof -
  have c: "canonical \<lparr>year = 2024, month = 2, day = 29, hour = 23, minute = 59, second = 59,
      millisecond = 999\<rparr>"
    by (simp add: canonical_def canonicalDate_def daysInMonth_def daysInMonthArray_def
        isLeapYear_def js_rem_def)
  from with_identity [OF c, of "[''day'' \<mapsto> 29]"] c show ?thesis by simp
qed

section \<open>Interval\<close>

lemma new_Interval_endpoints:
  "start (new_Interval a b) = a" "end' (new_Interval a b) = b"
  by (simp_all add: new_Interval_def Let_def split: prod.splits)

text \<open>
  What the constructor stores, for every pair of DateTimes: both loops terminate (the
  functions above are total), \<open>years\<close> is the floor quotient of the adjusted month count,
  \<open>hours\<close> the non-negative remainder of the hour delta, and \<open>months\<close> the remainder of
  \<open>%\<close>, whose sign follows the month count.
\<close>

lemma new_Interval_fields:
  "years (new_Interval a b) = snd (Interval_adjust a b) div 12"
  "months (new_Interval a b) = js_rem (snd (Interval_adjust a b)) 12"
  "hours (new_Interval a b) =
     ITime.hour (normalizeTime \<lparr>ITime.hour = hour b - hour a, minute = minute b - minute a,
        second = second b - second a, millisecond = millisecond b - millisecond a\<rparr>) mod 24"
  by (simp_all add: new_Interval_def Let_def modulo_def split: prod.splits)

lemma to_months_nonneg:
  assumes "0 \<le> snd (Interval_adjust a b)"
  shows "Interval_to (new_Interval a b) ''months'' = Inr (snd (Interval_adjust a b))"
  using assms by (simp add: Interval_to_def new_Interval_fields js_rem_nonneg)

lemmas Interval_eval = new_Interval_def Interval_adjust_def normalizeTime_def modulo_def
  daysInCurrentMonth_def daysInMonth_def daysInMonthArray_def isLeapYear_def js_rem_def
  Let_def

text \<open>
  C1. \<open>contains(dt)\<close> is true exactly when \<open>start \<le> dt \<le> end\<close> and \<open>overlaps(other)\<close>
  exactly when \<open>start \<le> other.end\<close> and \<open>other.start \<le> end\<close>, in the lexicographic
  order of the field tuples; for A = [Jan 1, Jan 10] and C = [Jan 11, Jan 20],
  \<open>A.overlaps(C)\<close> and \<open>A.contains(Jan 11)\<close> are false. In the code \<open><=\<close> compares the
  two objects through \<open>ToPrimitive\<close>, and both become the same string: both calls return
  true, although Jan 11 is not below Jan 10 in the lexicographic order \<open>spec_le\<close>.
\<close>

theorem comparison_ignores_fields:
  "Interval_contains
     (new_Interval
        \<lparr>year = 2024, month = 1, day = 1, hour = 0, minute = 0, second = 0, millisecond = 0\<rparr>
        \<lparr>year = 2024, month = 1, day = 10, hour = 0, minute = 0, second = 0, millisecond = 0\<rparr>)
     \<lparr>year = 2024, month = 1, day = 11, hour = 0, minute = 0, second = 0, millisecond = 0\<rparr> \<and>
   Interval_overlaps
     (new_Interval
        \<lparr>year = 2024, month = 1, day = 1, hour = 0, minute = 0, second = 0, millisecond = 0\<rparr>
        \<lparr>year = 2024, month = 1, day = 10, hour = 0, minute = 0, second = 0, millisecond = 0\<rparr>)
     (new_Interval
        \<lparr>year = 2024, month = 1, day = 11, hour = 0, minute = 0, second = 0, millisecond = 0\<rparr>
        \<lparr>year = 2024, month = 1, day = 20, hour = 0, minute = 0, second = 0, millisecond = 0\<rparr>) \<and>
   \<not> spec_le
     \<lparr>year = 2024, month = 1, day = 11, hour = 0, minute = 0, second = 0, millisecond = 0\<rparr>
     \<lparr>year = 2024, month = 1, day = 10, hour = 0, minute = 0, second = 0, millisecond = 0\<rparr>"
  by (simp add: Interval_contains_def Interval_overlaps_def DateTime_le_def
      DateTime_toPrimitive_def spec_le_def fieldList_def)

text \<open>Both queries are constant: they hold for all arguments.\<close>

lemma contains_overlaps_constant: "Interval_contains i dt \<and> Interval_overlaps i j"
  by (simp add: Interval_contains_def Interval_overlaps_def DateTime_le_def
      DateTime_toPrimitive_def)

text \<open>
  C3. For every pair of canonical DateTimes, \<open>end\<close> before \<open>start\<close> included, the
  constructor succeeds and stores \<open>years = floor(M / 12)\<close>, \<open>months = M mod 12\<close> with the
  non-negative modulo (so that \<open>years*12 + months = M\<close> and \<open>to("months")\<close> returns \<open>M\<close>)
  and \<open>hours = hourDelta mod 24\<close>. The code takes \<open>months % monthsInYear\<close>: from
  2023-03-15 to 2023-02-15 the adjusted month count \<open>M\<close> is \<open>-1\<close>, the stored fields are
  \<open>years = -1\<close> and \<open>months = -1\<close> (the claim: 11), and \<open>to("months")\<close> returns \<open>-13\<close>.
\<close>

theorem months_remainder_truncates:
  "Interval_adjust
      \<lparr>year = 2023, month = 3, day = 15, hour = 0, minute = 0, second = 0, millisecond = 0\<rparr>
      \<lparr>year = 2023, month = 2, day = 15, hour = 0, minute = 0, second = 0, millisecond = 0\<rparr>
     = (Some 0, - 1) \<and>
   years (new_Interval
      \<lparr>year = 2023, month = 3, day = 15, hour = 0, minute = 0, second = 0, millisecond = 0\<rparr>
      \<lparr>year = 2023, month = 2, day = 15, hour = 0, minute = 0, second = 0, millisecond = 0\<rparr>)
     = - 1 \<and>
   months (new_Interval
      \<lparr>year = 2023, month = 3, day = 15, hour = 0, minute = 0, second = 0, millisecond = 0\<rparr>
      \<lparr>year = 2023, month = 2, day = 15, hour = 0, minute = 0, second = 0, millisecond = 0\<rparr>)
     = - 1 \<and>
   Interval_to (new_Interval
      \<lparr>year = 2023, month = 3, day = 15, hour = 0, minute = 0, second = 0, millisecond = 0\<rparr>
      \<lparr>year = 2023, month = 2, day = 15, hour = 0, minute = 0, second = 0, millisecond = 0\<rparr>)
     ''months'' = Inr (- 13) \<and>
   (- 1 :: int) mod 12 = 11"
  by (simp add: Interval_eval Interval_to_def)

text \<open>
  \<open>before\<close> throws on every anchor and duration; \<open>after\<close> on a valid \<open>Date\<close> returns
  the interval from \<open>DateTime.from(start)\<close> to \<open>DateTime.from(start).plus(dur)\<close>.
\<close>

lemma Interval_before_throws: "\<exists>msg. Interval_before anchor dur = Inl (TypeError msg)"
  by (simp add: Interval_before_def DateTime_from_like_def split: DateTimeLike.splits)

lemma Interval_after_valid:
  "\<exists>startdt enddt i. DateTime_from (ValidDate g) = Some startdt \<and>
     DateTime_plus startdt dur = Some enddt \<and>
     Interval_after (DateSource (ValidDate g)) dur = Inr (Some i) \<and>
     start i = startdt \<and> end' i = enddt"
proof -
  obtain startdt where s: "DateTime_from (ValidDate g) = Some startdt"
    by (simp add: DateTime_from_def)
  from plus_canonical [of startdt dur] obtain enddt where
    e: "DateTime_plus startdt dur = Some enddt" by blast
  show ?thesis
    using s e by (simp add: Interval_after_def DateTime_from_like_def new_Interval_endpoints)
qed

text \<open>
  C4. For every DateTime-like anchor and every duration, \<open>Interval.before(end, dur)\<close>
  returns the interval whose end is \<open>DateTime.from(end)\<close> and whose start is that DateTime
  minus the duration, and \<open>Interval.after(start, dur)\<close> the interval from
  \<open>DateTime.from(start)\<close> to \<open>DateTime.from(start).plus(dur)\<close>. The code of \<open>before\<close>
  calls \<open>enddt.minus(dur)\<close>, a method that \<open>DateTime\<close> does not have: for the anchor
  1970-01-01 and a duration of one day it throws a \<open>TypeError\<close> and returns no interval,
  where \<open>after\<close> on the same arguments returns the interval from 1970-01-01 to
  1970-01-02. On a \<open>DateTime\<close> anchor \<open>from\<close> itself throws, in \<open>after\<close> as well.
\<close>

theorem before_throws_TypeError:
  "Interval_before
     (DateSource (ValidDate \<lparr>getUTCFullYear = 1970, getUTCMonth = 0, getUTCDate = 1,
        getUTCHours = 0, getUTCMinutes = 0, getUTCSeconds = 0, getUTCMilliseconds = 0\<rparr>))
     [''days'' \<mapsto> 1]
     = Inl (TypeError ''enddt.minus is not a function'') \<and>
   Interval_after
     (DateSource (ValidDate \<lparr>getUTCFullYear = 1970, getUTCMonth = 0, getUTCDate = 1,
        getUTCHours = 0, getUTCMinutes = 0, getUTCSeconds = 0, getUTCMilliseconds = 0\<rparr>))
     [''days'' \<mapsto> 1]
     = Inr (Some (new_Interval
         \<lparr>year = 1970, month = 1, day = 1, hour = 0, minute = 0, second = 0,
           millisecond = 0\<rparr>
         \<lparr>year = 1970, month = 1, day = 2, hour = 0, minute = 0, second = 0,
           millisecond = 0\<rparr>)) \<and>
   Interval_after
     (DateTimeSource \<lparr>year = 1970, month = 1, day = 1, hour = 0, minute = 0, second = 0,
        millisecond = 0\<rparr>)
     [''days'' \<mapsto> 1]
     = Inl (TypeError ''unknown source type.'')"
proof -
  have p: "DateTime_plus
      \<lparr>year = 1970, month = 1, day = 1, hour = 0, minute = 0, second = 0, millisecond = 0\<rparr>
      [''days'' \<mapsto> 1]
    = Some \<lparr>year = 1970, month = 1, day = 2, hour = 0, minute = 0, second = 0,
        millisecond = 0\<rparr>"
    by (simp add: DateTime_plus_def nullish_def normalizeDateTime_def normalizeTime_def
        asITime_def normalizeDate_def modulo_def daysInMonth_def daysInMonthArray_def
        isLeapYear_def js_rem_def Let_def)
  show ?thesis
    by (simp add: Interval_before_def Interval_after_def DateTime_from_like_def
        DateTime_from_def p)
qed

text \<open>\<open>to\<close> on the day and finer units: the expression of the code and its cascade.\<close>

lemma Interval_to_cascade:
  fixes i :: Interval
  defines "D \<equiv> (year (end' i) - year (start i)) * 365 + leapDays (year (end' i))
      - leapDays (year (start i)) + yearday (end' i) - yearday (start i)"
  shows "Interval_to i ''days'' = Inr D"
    and "Interval_to i ''hours'' = Inr (D * 24 + hours i)"
    and "Interval_to i ''minutes'' = Inr ((D * 24 + hours i) * 60 + minutes i)"
    and "Interval_to i ''seconds'' = Inr (((D * 24 + hours i) * 60 + minutes i) * 60 + seconds i)"
    and "Interval_to i ''milliseconds'' =
      Inr ((((D * 24 + hours i) * 60 + minutes i) * 60 + seconds i) * 1000 + milliseconds i)"
  by (simp_all add: Interval_to_def D_def Let_def)

lemma countDays_2024:
  "countDays 400 \<lparr>year = 2024, month = 1, day = 1\<rparr> \<lparr>year = 2025, month = 1, day = 1\<rparr>
     = Some 366"
  by code_simp

text \<open>
  C9. \<open>to("days")\<close> returns the exact whole-day count between the calendar dates of the
  endpoints, equal to \<open>(end.year - start.year)*365 + leapDays(end.year) -
  leapDays(start.year) + yearday(end) - yearday(start)\<close> and matching a brute-force day
  counter, and the finer units cascade from it. The code computes that expression, but
  the expression is not the day count: \<open>yearday\<close> already counts the leap day of the
  current year, and \<open>leapDays(year)\<close> counts it again. From 2024-01-01 to 2025-01-01 the
  code returns 365; the day-by-day counter gives 366.
\<close>

theorem to_days_misses_leap_day:
  "Interval_to (new_Interval
      \<lparr>year = 2024, month = 1, day = 1, hour = 0, minute = 0, second = 0, millisecond = 0\<rparr>
      \<lparr>year = 2025, month = 1, day = 1, hour = 0, minute = 0, second = 0, millisecond = 0\<rparr>)
     ''days'' = Inr 365 \<and>
   countDays 400 \<lparr>year = 2024, month = 1, day = 1\<rparr> \<lparr>year = 2025, month = 1, day = 1\<rparr>
     = Some 366"
  using countDays_2024
  by (simp add: Interval_to_def new_Interval_endpoints leapDays_def div_or0_def toInt32_def
      yearday_def js_rem_def isLeapYear_def)

end
